theory Spec2Isabelle
  imports Complex_Main
begin

section \<open>Python strings\<close>

text \<open>
  A Python \<^verbatim>\<open>str\<close> is a sequence of Unicode code points and \<^verbatim>\<open>len\<close> counts code
  points, so a string is modelled as a list of code points (natural numbers).  The ASCII
  literals of the source are written with \<open>py\<close>.
\<close>

type_synonym codepoint = nat
type_synonym str = "codepoint list"

definition py :: "string \<Rightarrow> str" where
  "py s = map of_char s"

text \<open>
  The service relies on the Unicode character database (through \<^verbatim>\<open>re\<close>, \<^verbatim>\<open>str.strip\<close>,
  \<^verbatim>\<open>str.split\<close>, \<^verbatim>\<open>str.isupper\<close>, \<^verbatim>\<open>str.lower\<close>) and on the transliteration tables of
  the \<^verbatim>\<open>unidecode\<close> package.  Neither is part of the repository.  Their behaviour on ASCII
  is fixed and written out below; their behaviour beyond ASCII is a parameter of the model:

  \<^item> \<open>uni_space\<close>: \<^verbatim>\<open>Py_UNICODE_ISSPACE\<close>, which decides \<^verbatim>\<open>\s\<close>, \<^verbatim>\<open>strip()\<close> and \<^verbatim>\<open>split()\<close>;
  \<^item> \<open>uni_alnum\<close>: \<^verbatim>\<open>Py_UNICODE_ISALNUM\<close>, which with the underscore decides \<^verbatim>\<open>\w\<close> and \<^verbatim>\<open>\b\<close>;
  \<^item> \<open>uni_upper\<close>, \<open>uni_lower_or_title\<close>: the case classes read by \<^verbatim>\<open>str.isupper\<close>;
  \<^item> \<open>uni_lower\<close>: \<^verbatim>\<open>str.lower\<close> on a string that holds a non-ASCII code point;
  \<^item> \<open>uni_translit\<close>: the \<^verbatim>\<open>unidecode\<close> replacement of a non-ASCII code point.
\<close>

record unicode_db =
  uni_space :: "codepoint \<Rightarrow> bool"
  uni_alnum :: "codepoint \<Rightarrow> bool"
  uni_upper :: "codepoint \<Rightarrow> bool"
  uni_lower_or_title :: "codepoint \<Rightarrow> bool"
  uni_lower :: "str \<Rightarrow> str"
  uni_translit :: "codepoint \<Rightarrow> str"

text \<open>
  A table that knows nothing beyond ASCII.  It serves to evaluate the service on ASCII
  examples, where the choice of the table makes no difference.
\<close>

definition ascii_db :: unicode_db where
  "ascii_db =
     \<lparr>uni_space = (\<lambda>c. False), uni_alnum = (\<lambda>c. False), uni_upper = (\<lambda>c. False),
      uni_lower_or_title = (\<lambda>c. False), uni_lower = (\<lambda>s. s), uni_translit = (\<lambda>c. [])\<rparr>"

definition is_ascii :: "codepoint \<Rightarrow> bool" where
  "is_ascii c = (c < 128)"

definition is_AZ :: "codepoint \<Rightarrow> bool" where
  "is_AZ c = (of_char CHR ''A'' \<le> c \<and> c \<le> of_char CHR ''Z'')"

definition is_az :: "codepoint \<Rightarrow> bool" where
  "is_az c = (of_char CHR ''a'' \<le> c \<and> c \<le> of_char CHR ''z'')"

definition is_09 :: "codepoint \<Rightarrow> bool" where
  "is_09 c = (of_char CHR ''0'' \<le> c \<and> c \<le> of_char CHR ''9'')"

text \<open>ASCII white space of CPython: TAB, LF, VT, FF, CR, FS, GS, RS, US and the space.\<close>

definition ascii_space :: "codepoint \<Rightarrow> bool" where
  "ascii_space c = ((9 \<le> c \<and> c \<le> 13) \<or> (28 \<le> c \<and> c \<le> 32))"

definition isspace :: "unicode_db \<Rightarrow> codepoint \<Rightarrow> bool" where
  "isspace U c = (if is_ascii c then ascii_space c else uni_space U c)"

text \<open>The class \<^verbatim>\<open>\w\<close> of a \<^verbatim>\<open>str\<close> pattern: alphanumeric or the underscore.\<close>

definition word_char :: "unicode_db \<Rightarrow> codepoint \<Rightarrow> bool" where
  "word_char U c =
     (if is_ascii c then is_AZ c \<or> is_az c \<or> is_09 c \<or> c = of_char CHR ''_''
      else uni_alnum U c)"

text \<open>\<^verbatim>\<open>s.strip()\<close>: white space removed at both ends.\<close>

definition strip :: "unicode_db \<Rightarrow> str \<Rightarrow> str" where
  "strip U s = rev (dropWhile (isspace U) (rev (dropWhile (isspace U) s)))"

text \<open>
  \<^verbatim>\<open>text.replace(old, new)\<close>: every non-overlapping occurrence of \<open>old\<close>, found from the
  left, is replaced; an empty \<open>old\<close> matches before every code point and at the end.
\<close>

function replace :: "str \<Rightarrow> str \<Rightarrow> str \<Rightarrow> str" where
  "replace text old new =
     (if old = [] then new @ concat (map (\<lambda>c. c # new) text)
      else if text = [] then []
      else if take (length old) text = old
           then new @ replace (drop (length old) text) old new
           else hd text # replace (tl text) old new)"
  by pat_completeness auto
termination
  by (relation "measure (\<lambda>(text, old, new). length text)") (auto simp: Suc_le_eq)

declare replace.simps [simp del]

section \<open>Tokenizer\<close>

text \<open>
  \<^verbatim>\<open>re.findall(r'\b[A-Z]{2,}\b', text)\<close>.  The matcher is tried at every position from
  the left and resumes behind a match.  At a position the greedy \<^verbatim>\<open>[A-Z]{2,}\<close> takes the
  whole run of capitals; giving a capital back would end the match between two word
  characters, where \<^verbatim>\<open>\b\<close> fails, so the match is the whole run or nothing.  The flag
  \<open>prev\<close> tells whether the code point before the position is a word character.
\<close>

definition match_upper_word :: "unicode_db \<Rightarrow> bool \<Rightarrow> str \<Rightarrow> str option" where
  "match_upper_word U prev s =
     (let run = takeWhile is_AZ s; rest = drop (length run) s
      in if \<not> prev \<and> 2 \<le> length run \<and> (case rest of [] \<Rightarrow> True | c # _ \<Rightarrow> \<not> word_char U c)
         then Some run else None)"

function findall_upper :: "unicode_db \<Rightarrow> bool \<Rightarrow> str \<Rightarrow> str list" where
  "findall_upper U prev [] = []"
| "findall_upper U prev (c # cs) =
     (case match_upper_word U prev (c # cs) of
        Some w \<Rightarrow> w # findall_upper U True (drop (length w) (c # cs))
      | None \<Rightarrow> findall_upper U (word_char U c) cs)"
  by pat_completeness auto
termination
  by (relation "measure (\<lambda>(U, prev, s). length s)")
     (auto simp: match_upper_word_def Let_def split: if_splits)

text \<open>
  \<^verbatim>\<open>re.findall(r'\(([^)]+)\)', text)\<close>: an opening parenthesis, the longest non-empty run
  of code points other than the closing parenthesis, then a closing parenthesis.  The
  result lists the inner groups.
\<close>

definition match_paren :: "str \<Rightarrow> str option" where
  "match_paren s =
     (case s of
        [] \<Rightarrow> None
      | c # cs \<Rightarrow>
          (let inner = takeWhile (\<lambda>d. d \<noteq> of_char CHR '')'') cs; rest = drop (length inner) cs
           in if c = of_char CHR ''('' \<and> inner \<noteq> [] \<and> rest \<noteq> [] then Some inner else None))"

function findall_paren :: "str \<Rightarrow> str list" where
  "findall_paren [] = []"
| "findall_paren (c # cs) =
     (case match_paren (c # cs) of
        Some inner \<Rightarrow> inner # findall_paren (drop (length inner + 2) (c # cs))
      | None \<Rightarrow> findall_paren cs)"
  by pat_completeness auto
termination
  by (relation "measure length") auto

text \<open>
  The delimiter class of \<^verbatim>\<open>re.split\<close> in \<^verbatim>\<open>tokenize\<close>: comma, semicolon, en dash (U+2013),
  em dash (U+2014) and hyphen.
\<close>

definition is_delimiter :: "codepoint \<Rightarrow> bool" where
  "is_delimiter c =
     (c = of_char CHR '','' \<or> c = of_char CHR '';'' \<or> c = 8211 \<or> c = 8212 \<or> c = of_char CHR ''-'')"

text \<open>
  Splitting at every single separator code point, empty pieces kept.  This is what
  \<^verbatim>\<open>re.split\<close> does for a one-character class and what \<^verbatim>\<open>s.split('|')\<close> does.
\<close>

fun split_at :: "(codepoint \<Rightarrow> bool) \<Rightarrow> str \<Rightarrow> str list" where
  "split_at d [] = [[]]"
| "split_at d (c # cs) =
     (if d c then [] # split_at d cs
      else (case split_at d cs of p # ps \<Rightarrow> (c # p) # ps | [] \<Rightarrow> [[c]]))"

text \<open>The three loops of \<^verbatim>\<open>tokenize\<close>; the first two carry the tokens and the working text.\<close>

definition take_upper_word :: "str \<Rightarrow> str list \<times> str \<Rightarrow> str list \<times> str" where
  "take_upper_word word st =
     (case st of (tokens, remaining_text) \<Rightarrow>
        if 3 \<le> length word
        then (tokens @ [word], replace remaining_text word (py '' ''))
        else (tokens, remaining_text))"

definition take_parenthesis :: "str \<Rightarrow> str list \<times> str \<Rightarrow> str list \<times> str" where
  "take_parenthesis m st =
     (case st of (tokens, remaining_text) \<Rightarrow>
        if 3 \<le> length m
        then (tokens @ [m], replace remaining_text (py ''('' @ m @ py '')'') (py '' ''))
        else (tokens, remaining_text))"

definition take_part :: "unicode_db \<Rightarrow> str \<Rightarrow> str list \<Rightarrow> str list" where
  "take_part U part tokens =
     (let part = strip U part
      in if part \<noteq> [] \<and> 3 \<le> length part then tokens @ [part] else tokens)"

definition tokenize :: "unicode_db \<Rightarrow> str \<Rightarrow> str list" where
  "tokenize U text =
     (let st1 = fold take_upper_word (findall_upper U False text) ([], text);
          st2 = fold take_parenthesis (findall_paren (snd st1)) st1;
          parts = split_at is_delimiter (snd st2);
          tokens = fold (take_part U) parts (fst st2)
      in filter (\<lambda>token. 3 \<le> length token) tokens)"

section \<open>Normalizer\<close>

text \<open>\<^verbatim>\<open>re.sub(r'\s+', ' ', text)\<close>: every maximal run of white space becomes one space.\<close>

function sub_spaces :: "unicode_db \<Rightarrow> str \<Rightarrow> str" where
  "sub_spaces U [] = []"
| "sub_spaces U (c # cs) =
     (if isspace U c then of_char CHR '' '' # sub_spaces U (dropWhile (isspace U) cs)
      else c # sub_spaces U cs)"
  by pat_completeness auto
termination
  by (relation "measure (\<lambda>(U, s). length s)") (auto simp: less_Suc_eq_le length_dropWhile_le)

text \<open>\<^verbatim>\<open>text.split()\<close>: the maximal runs of code points that are not white space.\<close>

function split_ws :: "unicode_db \<Rightarrow> str \<Rightarrow> str list" where
  "split_ws U [] = []"
| "split_ws U (c # cs) =
     (if isspace U c then split_ws U cs
      else takeWhile (\<lambda>d. \<not> isspace U d) (c # cs)
           # split_ws U (dropWhile (\<lambda>d. \<not> isspace U d) cs))"
  by pat_completeness auto
termination
  by (relation "measure (\<lambda>(U, s). length s)") (auto simp: less_Suc_eq_le length_dropWhile_le)

text \<open>\<^verbatim>\<open>sep.join(words)\<close>.\<close>

fun join :: "str \<Rightarrow> str list \<Rightarrow> str" where
  "join sep [] = []"
| "join sep [w] = w"
| "join sep (w # ws) = w @ sep @ join sep ws"

text \<open>
  \<^verbatim>\<open>word.isupper()\<close>: some code point is uppercase and none is lowercase or titlecase.
\<close>

definition upper_char :: "unicode_db \<Rightarrow> codepoint \<Rightarrow> bool" where
  "upper_char U c = (if is_ascii c then is_AZ c else uni_upper U c)"

definition lower_or_title_char :: "unicode_db \<Rightarrow> codepoint \<Rightarrow> bool" where
  "lower_or_title_char U c = (if is_ascii c then is_az c else uni_lower_or_title U c)"

definition isupper :: "unicode_db \<Rightarrow> str \<Rightarrow> bool" where
  "isupper U s = (list_ex (upper_char U) s \<and> \<not> list_ex (lower_or_title_char U) s)"

text \<open>\<^verbatim>\<open>s.lower()\<close>: code point by code point on an ASCII string, by the table otherwise.\<close>

definition ascii_lower :: "codepoint \<Rightarrow> codepoint" where
  "ascii_lower c = (if is_AZ c then c + 32 else c)"

definition lower :: "unicode_db \<Rightarrow> str \<Rightarrow> str" where
  "lower U s = (if list_all is_ascii s then map ascii_lower s else uni_lower U s)"

text \<open>
  \<^verbatim>\<open>unidecode(text)\<close>: ASCII code points are kept, every other code point is replaced by
  its entry in the transliteration table.
\<close>

definition unidecode :: "unicode_db \<Rightarrow> str \<Rightarrow> str" where
  "unidecode U s = concat (map (\<lambda>c. if is_ascii c then [c] else uni_translit U c) s)"

text \<open>The body of the loop over \<^verbatim>\<open>enumerate(words)\<close>.\<close>

definition fix_case :: "unicode_db \<Rightarrow> str \<Rightarrow> str" where
  "fix_case U word = (if \<not> isupper U word then lower U word else word)"

text \<open>What \<^verbatim>\<open>re.sub(r'[^\w\s]', '', text)\<close> keeps: word characters and white space.\<close>

definition kept_char :: "unicode_db \<Rightarrow> codepoint \<Rightarrow> bool" where
  "kept_char U c = (word_char U c \<or> isspace U c)"

text \<open>
  \<^verbatim>\<open>normalize(text)\<close>.  The argument is \<open>None\<close> when the caller passes Python's \<^verbatim>\<open>None\<close>;
  the test \<^verbatim>\<open>if not text\<close> sends both \<^verbatim>\<open>None\<close> and the empty string to the empty string.
\<close>

definition normalize :: "unicode_db \<Rightarrow> str option \<Rightarrow> str" where
  "normalize U text =
     (case text of
        None \<Rightarrow> []
      | Some t \<Rightarrow>
          if t = [] then []
          else
            (let t1 = strip U (sub_spaces U t);
                 words = map (fix_case U) (split_ws U t1);
                 t2 = join (py '' '') words;
                 t3 = filter (kept_char U) t2
             in unidecode U t3))"

section \<open>Data model\<close>

text \<open>The pydantic models of \<^verbatim>\<open>app/models/models.py\<close>.\<close>

record Institution =
  inst_id :: str
  inst_name :: str
  inst_ror :: str
  inst_alternate_names :: "str list"

record Match =
  match_token :: str
  match_institution :: Institution
  is_token_unique :: bool

record QueryResult =
  qr_query :: str
  qr_geonames :: "str list"
  qr_matches :: "Match list"

record TestMatch =
  correct :: "Match list"
  overmatched :: "Match list"
  undermatched :: "Institution list"

record Test =
  test_id :: str
  test_query :: str
  is_passing :: bool
  results :: TestMatch

text \<open>
  The mutable fields of \<^verbatim>\<open>InstitutionService\<close>.  The two dictionaries are maps; the value
  of a name is the list of registry ids in the order in which they were appended.
\<close>

record InstitutionService =
  normalized_name_to_ror_id :: "str \<rightharpoonup> str list"
  ror_id_to_record :: "str \<rightharpoonup> Institution"
  data_loaded :: bool

definition new_service :: InstitutionService where
  "new_service =
     \<lparr>normalized_name_to_ror_id = Map.empty, ror_id_to_record = Map.empty,
      data_loaded = False\<rparr>"

section \<open>Building the name index\<close>

text \<open>
  What \<^verbatim>\<open>load_data\<close> finds on disk: no file, a file that \<^verbatim>\<open>pandas.read_csv\<close> fails on, or
  a table.  A row gives, for each of the five columns read, the text of the cell.
  \<open>None\<close> stands for a column the table does not have and, for the two optional
  columns, also for a missing value (\<^verbatim>\<open>pd.notna\<close> false); the cells of the three required
  columns hold text.

  On text no statement of the loop body raises.  The body is nevertheless guarded by a
  handler that abandons the row and goes on with the next one, and a value that is not
  text can make a statement raise (the validation of the \<^verbatim>\<open>Institution\<close>, or \<^verbatim>\<open>len\<close> on the
  display name).  The field \<open>row_raises_after\<close> tells after how many of its state
  changes the body is abandoned; it is \<open>None\<close> for a row whose body runs to its end.
\<close>

record csv_row =
  row_id :: "str option"
  row_openalex_id :: "str option"
  row_display_name :: "str option"
  row_acronyms :: "str option"
  row_names :: "str option"
  row_raises_after :: "nat option"

datatype ror_file = FileMissing | ReadFailure | Table "csv_row list"

definition add_normalized_name_to_lookup ::
    "unicode_db \<Rightarrow> str \<Rightarrow> str \<Rightarrow> InstitutionService \<Rightarrow> InstitutionService" where
  "add_normalized_name_to_lookup U name ror_id s =
     (if name = [] \<or> length name < 3 then s
      else
        (let normalized_name = normalize U (Some name);
             ids = (case normalized_name_to_ror_id s normalized_name of
                      None \<Rightarrow> [] | Some ids \<Rightarrow> ids);
             ids' = (if ror_id \<in> set ids then ids else ids @ [ror_id])
         in s\<lparr>normalized_name_to_ror_id :=
                 (normalized_name_to_ror_id s)(normalized_name \<mapsto> ids')\<rparr>))"

definition add_alternate_name ::
    "unicode_db \<Rightarrow> str \<Rightarrow> str \<Rightarrow> InstitutionService \<Rightarrow> InstitutionService" where
  "add_alternate_name U ror_id alt_name s =
     (if alt_name \<noteq> [] \<and> 3 \<le> length alt_name
      then add_normalized_name_to_lookup U alt_name ror_id s else s)"

definition pipe_list :: "str option \<Rightarrow> str list" where
  "pipe_list cell =
     (case cell of None \<Rightarrow> [] | Some t \<Rightarrow> split_at (\<lambda>c. c = of_char CHR ''|'') t)"

text \<open>The body of the loop over \<^verbatim>\<open>df.iterrows()\<close> when no statement raises.\<close>

definition row_body :: "unicode_db \<Rightarrow> csv_row \<Rightarrow> InstitutionService \<Rightarrow> InstitutionService" where
  "row_body U row s =
     (case (row_id row, row_openalex_id row, row_display_name row) of
        (Some ror_id, Some openalex_id, Some display_name) \<Rightarrow>
          if ror_id = [] \<or> openalex_id = [] \<or> display_name = [] then s
          else
            (let alternate_names = pipe_list (row_acronyms row) @ pipe_list (row_names row);
                 institution =
                   \<lparr>inst_id = openalex_id, inst_name = display_name,
                    inst_ror = py ''https://ror.org/'' @ ror_id,
                    inst_alternate_names = alternate_names\<rparr>;
                 s1 = s\<lparr>ror_id_to_record := (ror_id_to_record s)(ror_id \<mapsto> institution)\<rparr>;
                 s2 = add_normalized_name_to_lookup U display_name ror_id s1
             in fold (add_alternate_name U ror_id) alternate_names s2)
      | _ \<Rightarrow> s)"

text \<open>
  The state changes of the body, one after the other: the record is stored, the display
  name is indexed, then each alternate name.  A row whose body is abandoned has made an
  initial part of them.
\<close>

definition row_steps ::
    "unicode_db \<Rightarrow> csv_row \<Rightarrow> (InstitutionService \<Rightarrow> InstitutionService) list" where
  "row_steps U row =
     (case (row_id row, row_openalex_id row, row_display_name row) of
        (Some ror_id, Some openalex_id, Some display_name) \<Rightarrow>
          if ror_id = [] \<or> openalex_id = [] \<or> display_name = [] then []
          else
            (let alternate_names = pipe_list (row_acronyms row) @ pipe_list (row_names row);
                 institution =
                   \<lparr>inst_id = openalex_id, inst_name = display_name,
                    inst_ror = py ''https://ror.org/'' @ ror_id,
                    inst_alternate_names = alternate_names\<rparr>
             in (\<lambda>s. s\<lparr>ror_id_to_record := (ror_id_to_record s)(ror_id \<mapsto> institution)\<rparr>)
                # add_normalized_name_to_lookup U display_name ror_id
                # map (add_alternate_name U ror_id) alternate_names)
      | _ \<Rightarrow> [])"

text \<open>One pass of the loop, with the handler of the row.\<close>

definition process_row :: "unicode_db \<Rightarrow> csv_row \<Rightarrow> InstitutionService \<Rightarrow> InstitutionService" where
  "process_row U row s =
     (case row_raises_after row of
        None \<Rightarrow> row_body U row s
      | Some n \<Rightarrow> fold (\<lambda>step s'. step s') (take n (row_steps U row)) s)"

definition sample_data :: "unicode_db \<Rightarrow> InstitutionService \<Rightarrow> InstitutionService" where
  "sample_data U s =
     (let sample_inst =
            \<lparr>inst_id = py ''https://openalex.org/I123456789'', inst_name = py ''Sample University'',
             inst_ror = py ''https://ror.org/sample123'',
             inst_alternate_names = [py ''SU'', py ''Sample Univ'']\<rparr>;
          s1 = s\<lparr>ror_id_to_record := (ror_id_to_record s)(py ''sample123'' \<mapsto> sample_inst)\<rparr>;
          s2 = add_normalized_name_to_lookup U (py ''Sample University'') (py ''sample123'') s1;
          s3 = add_normalized_name_to_lookup U (py ''SU'') (py ''sample123'') s2;
          s4 = add_normalized_name_to_lookup U (py ''Sample Univ'') (py ''sample123'') s3
      in s4\<lparr>data_loaded := True\<rparr>)"

definition fallback_data :: "unicode_db \<Rightarrow> InstitutionService \<Rightarrow> InstitutionService" where
  "fallback_data U s =
     (let sample_inst =
            \<lparr>inst_id = py ''https://openalex.org/I987654321'', inst_name = py ''Fallback University'',
             inst_ror = py ''https://ror.org/fallback123'',
             inst_alternate_names = [py ''FU'', py ''Fallback Univ'']\<rparr>;
          s1 = s\<lparr>ror_id_to_record := (ror_id_to_record s)(py ''fallback123'' \<mapsto> sample_inst)\<rparr>;
          s2 = add_normalized_name_to_lookup U (py ''Fallback University'') (py ''fallback123'') s1;
          s3 = add_normalized_name_to_lookup U (py ''FU'') (py ''fallback123'') s2;
          s4 = add_normalized_name_to_lookup U (py ''Fallback Univ'') (py ''fallback123'') s3
      in s4\<lparr>data_loaded := True\<rparr>)"

definition load_data :: "unicode_db \<Rightarrow> ror_file \<Rightarrow> InstitutionService \<Rightarrow> InstitutionService" where
  "load_data U csv s =
     (if data_loaded s then s
      else
        (case csv of
           FileMissing \<Rightarrow> sample_data U s
         | Table rows \<Rightarrow> (fold (process_row U) rows s)\<lparr>data_loaded := True\<rparr>
         | ReadFailure \<Rightarrow> fallback_data U s))"

text \<open>
  The invariant of the two dictionaries: every registry id listed under a normalized name
  has a record.
\<close>

definition index_closed :: "InstitutionService \<Rightarrow> bool" where
  "index_closed s =
     (\<forall>name ids. normalized_name_to_ror_id s name = Some ids
        \<longrightarrow> set ids \<subseteq> dom (ror_id_to_record s))"

section \<open>Lookup and disambiguation\<close>

text \<open>\<^verbatim>\<open>sub in s\<close> on strings: \<open>sub\<close> occurs in \<open>s\<close> as a contiguous piece.\<close>

fun contains :: "str \<Rightarrow> str \<Rightarrow> bool" where
  "contains [] sub = (sub = [])"
| "contains (c # cs) sub = (take (length sub) (c # cs) = sub \<or> contains cs sub)"

text \<open>The inner loop over the geonames, which stops at the first hit.\<close>

definition geo_hit :: "unicode_db \<Rightarrow> str list \<Rightarrow> Institution \<Rightarrow> bool" where
  "geo_hit U geonames institution =
     list_ex (\<lambda>geoname. contains (lower U (inst_name institution)) (lower U geoname)) geonames"

text \<open>The loop over the candidate ids; an id without a record is passed over.\<close>

definition disambiguate ::
    "unicode_db \<Rightarrow> InstitutionService \<Rightarrow> str list \<Rightarrow> str list \<Rightarrow> Institution list" where
  "disambiguate U s matching_ror_ids geonames =
     filter (geo_hit U geonames) (List.map_filter (ror_id_to_record s) matching_ror_ids)"

definition lookup_institution ::
    "unicode_db \<Rightarrow> InstitutionService \<Rightarrow> str \<Rightarrow> str list \<Rightarrow> Institution list \<times> bool" where
  "lookup_institution U s token geonames =
     (let normalized_token = normalize U (Some token)
      in if length normalized_token < 3 then ([], False)
         else
           (let matching_ror_ids =
                  (case normalized_name_to_ror_id s normalized_token of
                     None \<Rightarrow> [] | Some ids \<Rightarrow> ids)
            in if matching_ror_ids = [] then ([], False)
               else if length matching_ror_ids = 1
               then ((case ror_id_to_record s (hd matching_ror_ids) of
                        Some institution \<Rightarrow> [institution] | None \<Rightarrow> []), True)
               else if geonames \<noteq> []
                      \<and> length (disambiguate U s matching_ror_ids geonames) = 1
               then (disambiguate U s matching_ror_ids geonames, True)
               else (List.map_filter (ror_id_to_record s) matching_ror_ids, False)))"

section \<open>Processing a query\<close>

text \<open>
  The geographic extractor is an external library.  A call either raises or returns a
  dictionary that may hold \<^verbatim>\<open>'cities'\<close>, whose values are sequences of names, and
  \<^verbatim>\<open>'countries'\<close>, whose keys are names.
\<close>

datatype py_exception = Exception str

record geo_result =
  geo_cities :: "(str \<times> str list) list option"
  geo_countries :: "str list option"

type_synonym geo_text = "str \<Rightarrow> py_exception + geo_result"

definition find_geonames :: "geo_text \<Rightarrow> str \<Rightarrow> str list" where
  "find_geonames geo text =
     (case geo text of
        Inl e \<Rightarrow> []
      | Inr result \<Rightarrow>
          (case geo_cities result of None \<Rightarrow> [] | Some cities \<Rightarrow> concat (map snd cities))
          @ (case geo_countries result of None \<Rightarrow> [] | Some countries \<Rightarrow> countries))"

text \<open>The matches that one token contributes, and the loop over the tokens.\<close>

definition token_matches ::
    "unicode_db \<Rightarrow> InstitutionService \<Rightarrow> str list \<Rightarrow> str \<Rightarrow> Match list" where
  "token_matches U s geonames token =
     (case lookup_institution U s token geonames of
        (matching_institutions, unique) \<Rightarrow>
          map (\<lambda>institution.
                 \<lparr>match_token = token, match_institution = institution,
                  is_token_unique = unique\<rparr>)
              matching_institutions)"

definition process_query ::
    "unicode_db \<Rightarrow> geo_text \<Rightarrow> ror_file \<Rightarrow> InstitutionService \<Rightarrow> str
      \<Rightarrow> QueryResult \<times> InstitutionService" where
  "process_query U geo csv s query =
     (let s' = (if \<not> data_loaded s then load_data U csv s else s);
          geonames = find_geonames geo query;
          tokens = tokenize U query;
          matches = concat (map (token_matches U s' geonames) tokens)
      in (\<lparr>qr_query = query, qr_geonames = geonames, qr_matches = matches\<rparr>, s'))"

section \<open>Evaluator\<close>

text \<open>
  A test specification and an expected entity are dictionaries read with \<^verbatim>\<open>.get\<close>;
  \<open>None\<close> stands for a key the dictionary does not have.
\<close>

record expected_entity =
  ent_id :: "str option"
  ent_name :: "str option"
  ent_ror :: "str option"
  ent_alternate_names :: "str list option"

record test_spec =
  spec_id :: "str option"
  spec_query :: "str option"
  spec_expected_entities :: "expected_entity list option"

record TestService =
  tests :: "test_spec list"

definition get_or :: "'a option \<Rightarrow> 'a \<Rightarrow> 'a" where
  "get_or v d = (case v of None \<Rightarrow> d | Some x \<Rightarrow> x)"

text \<open>\<^verbatim>\<open>[entity.get('id') for entity in expected_entities if entity.get('id')]\<close>\<close>

definition expected_ids_of :: "expected_entity list \<Rightarrow> str list" where
  "expected_ids_of expected_entities =
     concat (map (\<lambda>entity. case ent_id entity of
                              None \<Rightarrow> []
                            | Some i \<Rightarrow> if i = [] then [] else [i])
                 expected_entities)"

text \<open>\<^verbatim>\<open>[match.institution.id for match in query_result.matches]\<close>\<close>

definition found_ids_of :: "QueryResult \<Rightarrow> str list" where
  "found_ids_of query_result = map (\<lambda>m. inst_id (match_institution m)) (qr_matches query_result)"

definition undermatched_of :: "str list \<Rightarrow> expected_entity \<Rightarrow> Institution list" where
  "undermatched_of found_ids entity =
     (case ent_id entity of
        None \<Rightarrow> []
      | Some entity_id \<Rightarrow>
          if entity_id \<noteq> [] \<and> entity_id \<notin> set found_ids
          then [\<lparr>inst_id = entity_id, inst_name = get_or (ent_name entity) [],
                 inst_ror = get_or (ent_ror entity) [],
                 inst_alternate_names = get_or (ent_alternate_names entity) []\<rparr>]
          else [])"

text \<open>The body of the loop of \<^verbatim>\<open>run_tests\<close> once the query has been processed.\<close>

definition evaluate_test :: "test_spec \<Rightarrow> QueryResult \<Rightarrow> Test" where
  "evaluate_test spec query_result =
     (let expected_entities = get_or (spec_expected_entities spec) [];
          expected_ids = expected_ids_of expected_entities;
          found_ids = found_ids_of query_result;
          passing = (list_all (\<lambda>expected_id. expected_id \<in> set found_ids) expected_ids
                     \<and> length found_ids = length expected_ids);
          correct_matches =
            filter (\<lambda>m. inst_id (match_institution m) \<in> set expected_ids) (qr_matches query_result);
          over =
            filter (\<lambda>m. inst_id (match_institution m) \<notin> set expected_ids) (qr_matches query_result);
          under = concat (map (undermatched_of found_ids) expected_entities)
      in \<lparr>test_id = get_or (spec_id spec) [], test_query = get_or (spec_query spec) [],
          is_passing = passing,
          results = \<lparr>correct = correct_matches, overmatched = over, undermatched = under\<rparr>\<rparr>)"

fun run_loop ::
    "unicode_db \<Rightarrow> geo_text \<Rightarrow> ror_file \<Rightarrow> test_spec list \<Rightarrow> InstitutionService
      \<Rightarrow> Test list \<times> InstitutionService" where
  "run_loop U geo csv [] s = ([], s)"
| "run_loop U geo csv (spec # specs) s =
     (case process_query U geo csv s (get_or (spec_query spec) []) of
        (query_result, s') \<Rightarrow>
          (case run_loop U geo csv specs s' of
             (outcomes, s'') \<Rightarrow> (evaluate_test spec query_result # outcomes, s'')))"

text \<open>
  \<^verbatim>\<open>run_tests(test_specs)\<close>.  The argument is \<open>None\<close> when the caller passes \<^verbatim>\<open>None\<close>; the
  test \<^verbatim>\<open>test_specs if test_specs else self.tests\<close> treats it like the empty list.
\<close>

definition tests_to_run :: "TestService \<Rightarrow> test_spec list option \<Rightarrow> test_spec list" where
  "tests_to_run ts test_specs =
     (case test_specs of
        None \<Rightarrow> tests ts
      | Some specs \<Rightarrow> if specs = [] then tests ts else specs)"

definition run_tests ::
    "unicode_db \<Rightarrow> geo_text \<Rightarrow> ror_file \<Rightarrow> TestService \<Rightarrow> InstitutionService
      \<Rightarrow> test_spec list option \<Rightarrow> Test list \<times> InstitutionService" where
  "run_tests U geo csv ts s test_specs =
     run_loop U geo csv (tests_to_run ts test_specs) s"

text \<open>
  \<^verbatim>\<open>calculate_metrics\<close>: the loop adds up the three counts.  Python's \<^verbatim>\<open>/\<close> on integers
  is the quotient as a float; the model keeps the exact quotient.
\<close>

definition count_test :: "Test \<Rightarrow> nat \<times> nat \<times> nat \<Rightarrow> nat \<times> nat \<times> nat" where
  "count_test test acc =
     (case acc of (true_positives, false_positives, false_negatives) \<Rightarrow>
        (true_positives + length (correct (results test)),
         false_positives + length (overmatched (results test)),
         false_negatives + length (undermatched (results test))))"

definition calculate_metrics :: "Test list \<Rightarrow> real \<times> real" where
  "calculate_metrics test_results =
     (case fold count_test test_results (0, 0, 0) of
        (true_positives, false_positives, false_negatives) \<Rightarrow>
          (if 0 < true_positives + false_positives
           then real true_positives / real (true_positives + false_positives) else 0,
           if 0 < true_positives + false_negatives
           then real true_positives / real (true_positives + false_negatives) else 0))"

section \<open>Examples\<close>

text \<open>An extractor that finds nothing, and one whose every call raises.\<close>

definition no_geonames :: geo_text where
  "no_geonames text = Inr \<lparr>geo_cities = None, geo_countries = None\<rparr>"

definition failing_geo :: geo_text where
  "failing_geo text = Inl (Exception (py ''extractor failure''))"

text \<open>
  Two registry tables: two colleges that share an alternate name, and two universities
  that share the acronym \<^verbatim>\<open>A&M\<close>; and a table whose first row is abandoned once its
  record is stored.
\<close>

definition trinity_table :: "csv_row list" where
  "trinity_table =
     [\<lparr>row_id = Some (py ''01''), row_openalex_id = Some (py ''I1''),
       row_display_name = Some (py ''Trinity College Dublin''), row_acronyms = None,
       row_names = Some (py ''Trinity College|TCD''), row_raises_after = None\<rparr>,
      \<lparr>row_id = Some (py ''02''), row_openalex_id = Some (py ''I2''),
       row_display_name = Some (py ''Trinity College Hartford''), row_acronyms = None,
       row_names = Some (py ''Trinity College''), row_raises_after = None\<rparr>]"

definition am_table :: "csv_row list" where
  "am_table =
     [\<lparr>row_id = Some (py ''01''), row_openalex_id = Some (py ''I1''),
       row_display_name = Some (py ''Texas A&M University''), row_acronyms = Some (py ''A&M''),
       row_names = None, row_raises_after = None\<rparr>,
      \<lparr>row_id = Some (py ''02''), row_openalex_id = Some (py ''I2''),
       row_display_name = Some (py ''Florida A&M University''), row_acronyms = Some (py ''A&M''),
       row_names = None, row_raises_after = None\<rparr>]"

definition broken_table :: "csv_row list" where
  "broken_table =
     [\<lparr>row_id = Some (py ''03''), row_openalex_id = Some (py ''I3''),
       row_display_name = Some (py ''nan''), row_acronyms = None,
       row_names = Some (py ''Nowhere College''), row_raises_after = Some 1\<rparr>,
      \<lparr>row_id = Some (py ''04''), row_openalex_id = Some (py ''I4''),
       row_display_name = Some (py ''Somewhere College''), row_acronyms = None,
       row_names = None, row_raises_after = None\<rparr>]"

text \<open>Two test specifications.\<close>

definition sample_spec :: test_spec where
  "sample_spec =
     \<lparr>spec_id = Some (py ''t1''), spec_query = Some (py ''Sample University''),
      spec_expected_entities =
        Some [\<lparr>ent_id = Some (py ''https://openalex.org/I123456789''), ent_name = None,
               ent_ror = None, ent_alternate_names = None\<rparr>]\<rparr>"

definition other_spec :: test_spec where
  "other_spec =
     \<lparr>spec_id = Some (py ''t2''), spec_query = Some (py ''Nowhere College''),
      spec_expected_entities = None\<rparr>"

section \<open>Evaluation rules\<close>

lemmas char_class_defs =
  is_ascii_def is_AZ_def is_az_def is_09_def ascii_space_def isspace_def word_char_def
  is_delimiter_def

lemmas tokenize_defs =
  tokenize_def py_def match_upper_word_def match_paren_def take_upper_word_def
  take_parenthesis_def take_part_def strip_def replace.simps

lemmas normalize_defs =
  normalize_def py_def strip_def fix_case_def isupper_def lower_def ascii_lower_def
  upper_char_def lower_or_title_char_def unidecode_def kept_char_def

lemmas service_defs =
  add_normalized_name_to_lookup_def add_alternate_name_def pipe_list_def process_row_def
  row_body_def row_steps_def
  sample_data_def fallback_data_def load_data_def new_service_def geo_hit_def disambiguate_def
  lookup_institution_def find_geonames_def token_matches_def process_query_def
  List.map_filter_def

lemmas evaluator_defs =
  get_or_def expected_ids_of_def found_ids_of_def undermatched_of_def evaluate_test_def
  tests_to_run_def run_tests_def

section \<open>The tokenizer on the examples of the specification\<close>

text \<open>
  C7.  \<^verbatim>\<open>tokenize("NASA Ames Research Center")\<close> is \<^verbatim>\<open>["NASA", "Ames Research Center"]\<close>:
  the acronym is found first and replaced by a space in the working text, and what is
  left has no delimiter and is stripped into one token.  This holds for every Unicode
  table, the input being ASCII.
\<close>

theorem tokenize_nasa:
  "tokenize U (py ''NASA Ames Research Center'') = [py ''NASA'', py ''Ames Research Center'']"
  by (simp add: tokenize_defs char_class_defs)



text \<open>
  C8.  Every token returned by \<^verbatim>\<open>tokenize\<close> has length at least 3, for every input string
  and every Unicode table.
\<close>

theorem tokenize_min_length:
  "\<forall>token \<in> set (tokenize U text). 3 \<le> length token"
  by (simp add: tokenize_def Let_def)

theorem tokenize_min_length_witness:
  "py ''NASA'' \<in> set (tokenize ascii_db (py ''NASA (x) Ames - Research Center''))
   \<and> 3 \<le> length (py ''NASA'')"
proof -
  have mem: "py ''NASA'' \<in> set (tokenize ascii_db (py ''NASA (x) Ames - Research Center''))"
    by (simp add: tokenize_defs char_class_defs)
  with tokenize_min_length [of ascii_db "py ''NASA (x) Ames - Research Center''"]
  show ?thesis by blast
qed

section \<open>The normalizer\<close>

subsection \<open>Splitting after collapsing and stripping\<close>

text \<open>
  The first step of \<^verbatim>\<open>normalize\<close> does not change the words that \<^verbatim>\<open>split()\<close> finds: white
  space at the end of the text, at its beginning or collapsed into one space separates the
  same words.
\<close>

lemma dropWhile_append_all:
  "list_all P t \<Longrightarrow> dropWhile (\<lambda>d. \<not> P d) (cs @ t) = dropWhile (\<lambda>d. \<not> P d) cs @ t"
proof (induction cs)
  case Nil
  then show ?case by (cases t) auto
next
  case (Cons c cs)
  then show ?case by simp
qed

lemma takeWhile_append_all:
  "list_all P t \<Longrightarrow> takeWhile (\<lambda>d. \<not> P d) (cs @ t) = takeWhile (\<lambda>d. \<not> P d) cs"
proof (induction cs)
  case Nil
  then show ?case by (cases t) auto
next
  case (Cons c cs)
  then show ?case by simp
qed

lemma split_ws_all_space: "list_all (isspace U) t \<Longrightarrow> split_ws U t = []"
  by (induction t) auto

lemma split_ws_append_space:
  "list_all (isspace U) t \<Longrightarrow> split_ws U (s @ t) = split_ws U s"
proof (induction U s rule: split_ws.induct)
  case (1 U)
  then show ?case by (simp add: split_ws_all_space)
next
  case (2 U c cs)
  then show ?case
    by (auto simp: takeWhile_append_all dropWhile_append_all)
qed

lemma split_ws_dropWhile: "split_ws U (dropWhile (isspace U) s) = split_ws U s"
  by (induction s) auto

lemma split_ws_strip: "split_ws U (strip U s) = split_ws U s"
proof -
  let ?d = "dropWhile (isspace U) s"
  have "?d = rev (dropWhile (isspace U) (rev ?d)) @ rev (takeWhile (isspace U) (rev ?d))"
    by (metis rev_append rev_rev_ident takeWhile_dropWhile_id)
  moreover have "list_all (isspace U) (rev (takeWhile (isspace U) (rev ?d)))"
    by (simp add: list_all_iff) (meson set_takeWhileD)
  ultimately have "split_ws U ?d = split_ws U (strip U s)"
    unfolding strip_def by (metis split_ws_append_space)
  then show ?thesis by (simp add: split_ws_dropWhile)
qed

lemma isspace_space [simp]: "isspace U 32"
  by (simp add: char_class_defs)

lemma takeWhile_sub_spaces:
  "takeWhile (\<lambda>d. \<not> isspace U d) (sub_spaces U s) = takeWhile (\<lambda>d. \<not> isspace U d) s"
  by (induction U s rule: sub_spaces.induct) auto

lemma dropWhile_sub_spaces:
  "dropWhile (\<lambda>d. \<not> isspace U d) (sub_spaces U s) = sub_spaces U (dropWhile (\<lambda>d. \<not> isspace U d) s)"
  by (induction U s rule: sub_spaces.induct) auto

lemma split_ws_sub_spaces: "split_ws U (sub_spaces U s) = split_ws U s"
proof (induction s rule: length_induct)
  case (1 s)
  show ?case
  proof (cases s)
    case Nil
    then show ?thesis by simp
  next
    case (Cons c cs)
    show ?thesis
    proof (cases "isspace U c")
      case True
      have "length (dropWhile (isspace U) cs) < length s"
        using Cons by (simp add: less_Suc_eq_le length_dropWhile_le)
      with 1 have "split_ws U (sub_spaces U (dropWhile (isspace U) cs)) = split_ws U (dropWhile (isspace U) cs)"
        by blast
      with True Cons show ?thesis by (simp add: split_ws_dropWhile)
    next
      case False
      have "length (dropWhile (\<lambda>d. \<not> isspace U d) cs) < length s"
        using Cons by (simp add: less_Suc_eq_le length_dropWhile_le)
      with 1 have "split_ws U (sub_spaces U (dropWhile (\<lambda>d. \<not> isspace U d) cs))
          = split_ws U (dropWhile (\<lambda>d. \<not> isspace U d) cs)"
        by blast
      with False Cons show ?thesis
        by (simp add: takeWhile_sub_spaces dropWhile_sub_spaces)
    qed
  qed
qed

text \<open>
  The words of a text are non-empty and free of white space, and joining such words with
  single spaces is undone by \<^verbatim>\<open>split()\<close>.
\<close>

lemma split_ws_words:
  "w \<in> set (split_ws U s) \<Longrightarrow> w \<noteq> [] \<and> set w \<subseteq> set s \<and> (\<forall>c\<in>set w. \<not> isspace U c)"
proof (induction U s rule: split_ws.induct)
  case (1 U)
  then show ?case by simp
next
  case (2 U c cs)
  show ?case
  proof (cases "isspace U c")
    case True
    with 2 have "w \<noteq> [] \<and> set w \<subseteq> set cs \<and> (\<forall>c\<in>set w. \<not> isspace U c)" by simp
    then show ?thesis by auto
  next
    case False
    with 2(3) have "w = c # takeWhile (\<lambda>d. \<not> isspace U d) cs
        \<or> w \<in> set (split_ws U (dropWhile (\<lambda>d. \<not> isspace U d) cs))" by simp
    then show ?thesis
    proof
      assume w: "w = c # takeWhile (\<lambda>d. \<not> isspace U d) cs"
      have "set (takeWhile (\<lambda>d. \<not> isspace U d) cs) \<subseteq> set cs"
        by (meson set_takeWhileD subsetI)
      moreover have "\<forall>c\<in>set (takeWhile (\<lambda>d. \<not> isspace U d) cs). \<not> isspace U c"
        by (auto dest: set_takeWhileD)
      ultimately show ?thesis using w False by auto
    next
      assume "w \<in> set (split_ws U (dropWhile (\<lambda>d. \<not> isspace U d) cs))"
      with 2(2) False have "w \<noteq> [] \<and> set w \<subseteq> set (dropWhile (\<lambda>d. \<not> isspace U d) cs)
          \<and> (\<forall>c\<in>set w. \<not> isspace U c)" by blast
      moreover have "set (dropWhile (\<lambda>d. \<not> isspace U d) cs) \<subseteq> set cs"
        by (meson set_dropWhileD subsetI)
      ultimately show ?thesis by auto
    qed
  qed
qed

lemma split_ws_word:
  "w \<noteq> [] \<Longrightarrow> \<forall>c\<in>set w. \<not> isspace U c \<Longrightarrow> split_ws U (w @ 32 # rest) = w # split_ws U rest"
proof -
  assume w: "w \<noteq> []" and ns: "\<forall>c\<in>set w. \<not> isspace U c"
  from w obtain c cs where wc: "w = c # cs" by (cases w) auto
  have t: "takeWhile (\<lambda>d. \<not> isspace U d) (cs @ 32 # rest) = cs"
    using ns wc by (induction cs) auto
  have d: "dropWhile (\<lambda>d. \<not> isspace U d) (cs @ 32 # rest) = 32 # rest"
    using ns wc by (induction cs) auto
  show ?thesis using ns by (simp add: wc t d)
qed

lemma split_ws_single:
  "w \<noteq> [] \<Longrightarrow> \<forall>c\<in>set w. \<not> isspace U c \<Longrightarrow> split_ws U w = [w]"
proof -
  assume w: "w \<noteq> []" and ns: "\<forall>c\<in>set w. \<not> isspace U c"
  from w obtain c cs where wc: "w = c # cs" by (cases w) auto
  have t: "takeWhile (\<lambda>d. \<not> isspace U d) cs = cs"
    using ns wc by (induction cs) auto
  have d: "dropWhile (\<lambda>d. \<not> isspace U d) cs = []"
    using ns wc by (induction cs) auto
  show ?thesis using ns by (simp add: wc t d)
qed

lemma split_ws_join:
  "\<forall>w\<in>set ws. w \<noteq> [] \<and> (\<forall>c\<in>set w. \<not> isspace U c) \<Longrightarrow> split_ws U (join [32] ws) = ws"
proof (induction "[32::nat]" ws rule: join.induct)
  case 1
  then show ?case by simp
next
  case (2 w)
  then show ?case by (simp add: split_ws_single)
next
  case (3 w v vs)
  then show ?case by (simp add: split_ws_word)
qed

subsection \<open>The normalizer on ASCII text\<close>

text \<open>
  On ASCII text the transliteration changes nothing, and the result of \<^verbatim>\<open>normalize\<close> is the
  words of the text, each with its case fixed and its punctuation removed, joined by
  single spaces.
\<close>

lemma filter_join:
  "P 32 \<Longrightarrow> filter P (join [32] ws) = join [32] (map (filter P) ws)"
  by (induction "[32::nat]" ws rule: join.induct) auto

lemma set_join: "set (join [32] ws) \<subseteq> insert 32 (\<Union>w\<in>set ws. set w)"
  by (induction "[32::nat]" ws rule: join.induct) auto

lemma unidecode_ascii: "list_all is_ascii s \<Longrightarrow> unidecode U s = s"
  by (induction s) (auto simp: unidecode_def)

lemma ascii_lower_ascii: "is_ascii c \<Longrightarrow> is_ascii (ascii_lower c)"
  by (auto simp: ascii_lower_def char_class_defs)

lemma fix_case_ascii: "list_all is_ascii w \<Longrightarrow> list_all is_ascii (fix_case U w)"
  by (auto simp: fix_case_def lower_def list_all_iff ascii_lower_ascii)

lemma ascii_word_not_space: "is_ascii c \<Longrightarrow> word_char U c \<Longrightarrow> \<not> isspace U c"
  by (auto simp: char_class_defs)

lemma kept_space [simp]: "kept_char U 32"
  by (simp add: kept_char_def)

lemma normalize_words:
  assumes "list_all is_ascii x"
  shows "normalize U (Some x) =
    join [32] (map (\<lambda>w. filter (kept_char U) (fix_case U w)) (split_ws U x))"
proof (cases "x = []")
  case True
  then show ?thesis by (simp add: normalize_def)
next
  case False
  let ?g = "\<lambda>w. filter (kept_char U) (fix_case U w)"
  let ?r = "join [32] (map ?g (split_ws U x))"
  have "\<forall>w\<in>set (split_ws U x). list_all is_ascii w"
    using assms split_ws_words [of _ U x] by (auto simp: list_all_iff)
  then have "\<forall>w\<in>set (split_ws U x). list_all is_ascii (?g w)"
    using fix_case_ascii [of _ U] by (auto simp: list_all_iff)
  then have "list_all is_ascii ?r"
    using set_join [of "map ?g (split_ws U x)"] by (auto simp: list_all_iff is_ascii_def)
  then have "unidecode U ?r = ?r" by (rule unidecode_ascii)
  then show ?thesis
    using False
    by (simp add: normalize_def Let_def split_ws_strip split_ws_sub_spaces py_def filter_join comp_def)
qed

text \<open>
  A text is a fixed point of \<^verbatim>\<open>normalize\<close> when it is a list of non-empty words of ASCII word
  characters, joined by single spaces, none of which the case step changes.  A word with
  a word character is turned into such a word.
\<close>

lemma normalize_fixed:
  assumes "\<forall>v\<in>set vs. v \<noteq> [] \<and> list_all is_ascii v \<and> (\<forall>c\<in>set v. word_char U c) \<and> fix_case U v = v"
  shows "normalize U (Some (join [32] vs)) = join [32] vs"
proof -
  have "list_all is_ascii (join [32] vs)"
    using assms set_join [of vs] by (auto simp: list_all_iff is_ascii_def)
  then have "normalize U (Some (join [32] vs)) =
      join [32] (map (\<lambda>w. filter (kept_char U) (fix_case U w)) (split_ws U (join [32] vs)))"
    by (rule normalize_words)
  moreover have "split_ws U (join [32] vs) = vs"
    using assms by (intro split_ws_join) (auto simp: list_all_iff ascii_word_not_space)
  moreover have "map (\<lambda>w. filter (kept_char U) (fix_case U w)) vs = vs"
    using assms by (intro map_idI) (auto simp: kept_char_def)
  ultimately show ?thesis by simp
qed

lemma ascii_lower_word: "is_ascii c \<Longrightarrow> word_char U (ascii_lower c) = word_char U c"
  by (auto simp: ascii_lower_def char_class_defs)

lemma ascii_lower_space: "is_ascii c \<Longrightarrow> isspace U (ascii_lower c) = isspace U c"
  by (auto simp: ascii_lower_def char_class_defs)

lemma ascii_lower_not_AZ: "\<not> is_AZ (ascii_lower c)"
  by (auto simp: ascii_lower_def char_class_defs)

lemma ascii_lower_idem: "ascii_lower (ascii_lower c) = ascii_lower c"
  by (auto simp: ascii_lower_def char_class_defs)

lemma word_normal_form:
  assumes ne: "w \<noteq> []" and asc: "list_all is_ascii w"
    and ns: "\<forall>c\<in>set w. \<not> isspace U c" and wc: "list_ex (word_char U) w"
  defines "v \<equiv> filter (kept_char U) (fix_case U w)"
  shows "v \<noteq> [] \<and> list_all is_ascii v \<and> (\<forall>c\<in>set v. word_char U c) \<and> fix_case U v = v"
proof (cases "isupper U w")
  case True
  then have v: "v = filter (word_char U) w"
    using ns unfolding v_def fix_case_def kept_char_def by (auto intro: filter_cong)
  have "isupper U v"
    using True asc unfolding v isupper_def
    by (auto simp: list_ex_iff list_all_iff upper_char_def word_char_def)
  then show ?thesis
    using wc asc unfolding v by (auto simp: fix_case_def list_ex_iff list_all_iff filter_empty_conv)
next
  case False
  then have v: "v = filter (word_char U) (map ascii_lower w)"
    using ns asc unfolding v_def fix_case_def kept_char_def lower_def
    by (auto intro!: filter_cong simp: list_all_iff ascii_lower_space)
  have a: "list_all is_ascii v"
    using asc unfolding v by (auto simp: list_all_iff ascii_lower_ascii)
  have "\<not> isupper U v"
    using a unfolding v isupper_def
    by (auto simp: list_ex_iff list_all_iff upper_char_def ascii_lower_not_AZ)
  moreover have "map ascii_lower v = v"
    unfolding v by (intro map_idI) (auto simp: ascii_lower_idem)
  ultimately have "fix_case U v = v"
    using a by (simp add: fix_case_def lower_def)
  moreover have "v \<noteq> []"
    using wc asc unfolding v
    by (auto simp: list_ex_iff list_all_iff filter_empty_conv ascii_lower_word)
  ultimately show ?thesis using a unfolding v by auto
qed

lemma normalize_idem:
  assumes "list_all is_ascii x" and "list_all (list_ex (word_char U)) (split_ws U x)"
  shows "normalize U (Some (normalize U (Some x))) = normalize U (Some x)"
proof -
  let ?g = "\<lambda>w. filter (kept_char U) (fix_case U w)"
  have n: "normalize U (Some x) = join [32] (map ?g (split_ws U x))"
    using assms(1) by (rule normalize_words)
  have "\<forall>v\<in>set (map ?g (split_ws U x)).
      v \<noteq> [] \<and> list_all is_ascii v \<and> (\<forall>c\<in>set v. word_char U c) \<and> fix_case U v = v"
  proof
    fix v assume "v \<in> set (map ?g (split_ws U x))"
    then obtain w where w: "w \<in> set (split_ws U x)" and v: "v = ?g w" by auto
    from w have p: "w \<noteq> [] \<and> set w \<subseteq> set x \<and> (\<forall>c\<in>set w. \<not> isspace U c)"
      by (rule split_ws_words)
    with assms(1) have "list_all is_ascii w" by (auto simp: list_all_iff)
    moreover from assms(2) w have "list_ex (word_char U) w" by (simp add: list_all_iff)
    ultimately show "v \<noteq> [] \<and> list_all is_ascii v \<and> (\<forall>c\<in>set v. word_char U c) \<and> fix_case U v = v"
      unfolding v using p word_normal_form [of w U] by blast
  qed
  then show ?thesis unfolding n by (rule normalize_fixed)
qed

subsection \<open>Idempotence\<close>

text \<open>
  C2, as the specification states it, fails: the punctuation is removed after the white
  space has been collapsed, so \<^verbatim>\<open>normalize("a - b")\<close> is \<^verbatim>\<open>"a  b"\<close> with two spaces, which
  \<^verbatim>\<open>normalize\<close> sends to \<^verbatim>\<open>"a b"\<close>.
\<close>

theorem normalize_idempotent_counterexample:
  "normalize ascii_db (Some (normalize ascii_db (Some (py ''a - b''))))
     \<noteq> normalize ascii_db (Some (py ''a - b''))"
  by (simp add: normalize_defs char_class_defs)

text \<open>
  C2, amended.  \<^verbatim>\<open>normalize\<close> returns a string for every argument (the model is a total
  function), and the empty string for the empty string and for \<^verbatim>\<open>None\<close>.  It is idempotent
  on every ASCII string in which each white-space separated word holds at least one word
  character (a letter, a digit or the underscore).
\<close>

theorem normalize_idempotent_ascii_words:
  assumes "list_all is_ascii x"
    and "list_all (list_ex (word_char U)) (split_ws U x)"
  shows "normalize U (Some (normalize U (Some x))) = normalize U (Some x)
    \<and> normalize U (Some []) = [] \<and> normalize U None = []"
  using normalize_idem [OF assms] by (simp add: normalize_def)

theorem normalize_idempotent_ascii_words_witness:
  "list_all is_ascii (py '' Texas  A&M University, College-Station'')
   \<and> list_all (list_ex (word_char ascii_db))
        (split_ws ascii_db (py '' Texas  A&M University, College-Station''))
   \<and> normalize ascii_db (Some (py '' Texas  A&M University, College-Station''))
       = py ''texas AM university collegestation''
   \<and> normalize ascii_db (Some (normalize ascii_db
         (Some (py '' Texas  A&M University, College-Station''))))
       = normalize ascii_db (Some (py '' Texas  A&M University, College-Station''))"
proof -
  have a: "list_all is_ascii (py '' Texas  A&M University, College-Station'')"
    by (simp add: py_def is_ascii_def)
  have w: "list_all (list_ex (word_char ascii_db))
        (split_ws ascii_db (py '' Texas  A&M University, College-Station''))"
    by (simp add: py_def char_class_defs)
  have v: "normalize ascii_db (Some (py '' Texas  A&M University, College-Station''))
       = py ''texas AM university collegestation''"
    by (simp add: normalize_defs char_class_defs)
  from normalize_idempotent_ascii_words [OF a w] a w v show ?thesis by blast
qed

section \<open>The name index\<close>

text \<open>
  Every path of \<^verbatim>\<open>load_data\<close> stores the record of an institution before it lists the id
  under a name, so each step keeps the index closed.
\<close>

lemma add_name_loaded [simp]:
  "data_loaded (add_normalized_name_to_lookup U name ror_id s) = data_loaded s"
  by (simp add: add_normalized_name_to_lookup_def Let_def)

lemma load_data_loaded: "data_loaded (load_data U csv s)"
  by (cases csv) (simp_all add: load_data_def sample_data_def fallback_data_def Let_def)

lemma index_closed_new: "index_closed new_service"
  by (simp add: index_closed_def new_service_def)

lemma add_name_records [simp]:
  "ror_id_to_record (add_normalized_name_to_lookup U name ror_id s) = ror_id_to_record s"
  by (simp add: add_normalized_name_to_lookup_def Let_def)

lemma add_name_closed:
  assumes "index_closed s" and "ror_id \<in> dom (ror_id_to_record s)"
  shows "index_closed (add_normalized_name_to_lookup U name ror_id s)"
proof (cases "name = [] \<or> length name < 3")
  case True
  with assms(1) show ?thesis by (simp add: add_normalized_name_to_lookup_def)
next
  case False
  show ?thesis
    unfolding index_closed_def
  proof (intro allI impI)
    fix n ids
    assume e: "normalized_name_to_ror_id (add_normalized_name_to_lookup U name ror_id s) n = Some ids"
    show "set ids \<subseteq> dom (ror_id_to_record (add_normalized_name_to_lookup U name ror_id s))"
    proof (cases "n = normalize U (Some name)")
      case True
      define old where
        "old = (case normalized_name_to_ror_id s n of None \<Rightarrow> [] | Some ids \<Rightarrow> ids)"
      have "set old \<subseteq> dom (ror_id_to_record s)"
      proof (cases "normalized_name_to_ror_id s n")
        case None
        then show ?thesis by (simp add: old_def)
      next
        case (Some l)
        with assms(1) have "set l \<subseteq> dom (ror_id_to_record s)"
          unfolding index_closed_def by blast
        with Some show ?thesis by (simp add: old_def)
      qed
      moreover have "ids = (if ror_id \<in> set old then old else old @ [ror_id])"
        using e False True unfolding add_normalized_name_to_lookup_def Let_def old_def
        by (auto split: if_splits)
      ultimately show ?thesis using assms(2) by (auto split: if_splits)
    next
      case neq: False
      with e False have "normalized_name_to_ror_id s n = Some ids"
        by (simp add: add_normalized_name_to_lookup_def Let_def)
      with assms(1) show ?thesis by (simp add: index_closed_def)
    qed
  qed
qed

lemma add_alternate_records [simp]:
  "ror_id_to_record (add_alternate_name U ror_id alt s) = ror_id_to_record s"
  by (simp add: add_alternate_name_def)

lemma add_alternate_closed:
  "index_closed s \<Longrightarrow> ror_id \<in> dom (ror_id_to_record s)
    \<Longrightarrow> index_closed (add_alternate_name U ror_id alt s)"
  by (simp add: add_alternate_name_def add_name_closed)

lemma fold_alternate_closed:
  "index_closed s \<Longrightarrow> ror_id \<in> dom (ror_id_to_record s)
    \<Longrightarrow> index_closed (fold (add_alternate_name U ror_id) alts s)"
  by (induction alts arbitrary: s) (simp_all add: add_alternate_closed)

lemma fold_alternate_records [simp]:
  "ror_id_to_record (fold (add_alternate_name U ror_id) alts s) = ror_id_to_record s"
  by (induction alts arbitrary: s) simp_all

lemma record_insert_closed:
  "index_closed s \<Longrightarrow>
     index_closed (s\<lparr>ror_id_to_record := (ror_id_to_record s)(ror_id \<mapsto> institution)\<rparr>)"
  by (auto simp: index_closed_def)

lemma row_body_closed: "index_closed s \<Longrightarrow> index_closed (row_body U row s)"
  by (auto simp: row_body_def Let_def split: option.splits
      intro!: fold_alternate_closed add_name_closed record_insert_closed)

text \<open>The list of state changes is the body: performing all of them is running it.\<close>

lemma fold_map_steps:
  "fold (\<lambda>step s'. step s') (map f xs) s = fold f xs s"
  by (induction xs arbitrary: s) simp_all

lemma row_body_steps: "row_body U row s = fold (\<lambda>step s'. step s') (row_steps U row) s"
  by (simp add: row_body_def row_steps_def Let_def fold_map_steps split: option.splits)

text \<open>
  An abandoned row has stored its record before it has listed the id anywhere, so any
  number of its state changes keeps the index closed.
\<close>

lemma steps_closed:
  assumes "\<forall>step\<in>set steps. \<forall>s'. index_closed s' \<and> ror_id \<in> dom (ror_id_to_record s')
      \<longrightarrow> index_closed (step s') \<and> ror_id \<in> dom (ror_id_to_record (step s'))"
    and "index_closed s" and "ror_id \<in> dom (ror_id_to_record s)"
  shows "index_closed (fold (\<lambda>step s'. step s') steps s)"
  using assms by (induction steps arbitrary: s) simp_all

lemma row_prefix_closed:
  assumes "index_closed s"
  shows "index_closed (fold (\<lambda>step s'. step s') (take n (row_steps U row)) s)"
proof (cases "take n (row_steps U row)")
  case Nil
  have "fold (\<lambda>step s'. step s') (take n (row_steps U row)) s = s"
    unfolding Nil by simp
  with assms show ?thesis by simp
next
  case (Cons first rest)
  then obtain ror_id openalex_id display_name where
    ids: "row_id row = Some ror_id" "row_openalex_id row = Some openalex_id"
      "row_display_name row = Some display_name"
    and ne: "\<not> (ror_id = [] \<or> openalex_id = [] \<or> display_name = [])"
    by (auto simp: row_steps_def split: option.splits if_splits)
  let ?alts = "pipe_list (row_acronyms row) @ pipe_list (row_names row)"
  let ?inst = "\<lparr>inst_id = openalex_id, inst_name = display_name,
      inst_ror = py ''https://ror.org/'' @ ror_id, inst_alternate_names = ?alts\<rparr>"
  let ?store = "\<lambda>s. s\<lparr>ror_id_to_record := (ror_id_to_record s)(ror_id \<mapsto> ?inst)\<rparr>"
  let ?later = "add_normalized_name_to_lookup U display_name ror_id
      # map (add_alternate_name U ror_id) ?alts"
  have steps: "row_steps U row = ?store # ?later"
    using ids ne by (simp add: row_steps_def Let_def)
  from Cons obtain m where n: "n = Suc m" by (cases n) auto
  have keep: "\<forall>step\<in>set (take m ?later). \<forall>s'.
      index_closed s' \<and> ror_id \<in> dom (ror_id_to_record s')
      \<longrightarrow> index_closed (step s') \<and> ror_id \<in> dom (ror_id_to_record (step s'))"
  proof
    fix step assume "step \<in> set (take m ?later)"
    then have "step \<in> set ?later" by (rule in_set_takeD)
    then show "\<forall>s'. index_closed s' \<and> ror_id \<in> dom (ror_id_to_record s')
      \<longrightarrow> index_closed (step s') \<and> ror_id \<in> dom (ror_id_to_record (step s'))"
      by (auto intro!: add_name_closed add_alternate_closed)
  qed
  have "index_closed (?store s)" and "ror_id \<in> dom (ror_id_to_record (?store s))"
    using assms by (simp_all add: record_insert_closed)
  with keep have "index_closed (fold (\<lambda>step s'. step s') (take m ?later) (?store s))"
    by (rule steps_closed)
  then show ?thesis by (simp add: steps n)
qed

lemma process_row_closed: "index_closed s \<Longrightarrow> index_closed (process_row U row s)"
  by (simp add: process_row_def row_body_closed row_prefix_closed split: option.splits)

lemma fold_process_row_closed:
  "index_closed s \<Longrightarrow> index_closed (fold (process_row U) rows s)"
  by (induction rows arbitrary: s) (simp_all add: process_row_closed)

lemma loaded_flag_closed: "index_closed (s\<lparr>data_loaded := b\<rparr>) = index_closed s"
  by (simp add: index_closed_def)

lemma sample_data_closed: "index_closed s \<Longrightarrow> index_closed (sample_data U s)"
  unfolding sample_data_def Let_def loaded_flag_closed
  by (intro add_name_closed record_insert_closed) simp_all

lemma fallback_data_closed: "index_closed s \<Longrightarrow> index_closed (fallback_data U s)"
  unfolding fallback_data_def Let_def loaded_flag_closed
  by (intro add_name_closed record_insert_closed) simp_all

lemma load_data_closed: "index_closed s \<Longrightarrow> index_closed (load_data U csv s)"
  by (cases csv)
     (simp_all add: load_data_def sample_data_closed fallback_data_closed
        loaded_flag_closed fold_process_row_closed)

text \<open>
  On a closed index the branch for a single candidate finds the record, and the branch
  after disambiguation returns exactly one institution.
\<close>

lemma lookup_closed_not_empty_unique:
  assumes "index_closed s"
  shows "lookup_institution U s token geonames \<noteq> ([], True)"
proof -
  let ?n = "normalize U (Some token)"
  show ?thesis
  proof (cases "normalized_name_to_ror_id s ?n")
    case None
    then show ?thesis by (simp add: lookup_institution_def Let_def)
  next
    case (Some ids)
    with assms have sub: "set ids \<subseteq> dom (ror_id_to_record s)"
      by (simp add: index_closed_def)
    show ?thesis
    proof (cases "length ids = 1")
      case True
      then obtain k where k: "ids = [k]" by (cases ids) auto
      with sub obtain inst where "ror_id_to_record s k = Some inst" by auto
      with Some k show ?thesis by (simp add: lookup_institution_def Let_def)
    next
      case False
      with Some show ?thesis
        by (auto simp: lookup_institution_def Let_def)
    qed
  qed
qed

text \<open>
  C9.  In the state that \<^verbatim>\<open>load_data\<close> produces from a fresh service, whether it read a
  table (some of whose rows may have been abandoned), found no file or fell back after a
  read failure, every registry id listed under a normalized name is a key of
  \<^verbatim>\<open>ror_id_to_record\<close>; a later call of \<^verbatim>\<open>load_data\<close> leaves that
  state as it is; and in that state \<^verbatim>\<open>lookup_institution\<close> never returns an empty list of
  institutions together with \<open>True\<close>.
\<close>

theorem load_data_index_closed:
  "index_closed (load_data U csv new_service)
   \<and> load_data U csv' (load_data U csv new_service) = load_data U csv new_service
   \<and> lookup_institution U (load_data U csv new_service) token geonames \<noteq> ([], True)"
proof -
  have c: "index_closed (load_data U csv new_service)"
    using index_closed_new by (rule load_data_closed)
  have "load_data U csv' (load_data U csv new_service) = load_data U csv new_service"
    by (simp add: load_data_def [of U csv'] load_data_loaded)
  with c lookup_closed_not_empty_unique [OF c] show ?thesis by simp
qed

theorem load_data_index_closed_witness:
  "normalized_name_to_ror_id (load_data ascii_db FileMissing new_service)
      (py ''sample university'') = Some [py ''sample123'']
   \<and> py ''sample123'' \<in> dom (ror_id_to_record (load_data ascii_db FileMissing new_service))
   \<and> normalized_name_to_ror_id (load_data ascii_db ReadFailure new_service)
      (py ''fallback univ'') = Some [py ''fallback123'']
   \<and> py ''fallback123'' \<in> dom (ror_id_to_record (load_data ascii_db ReadFailure new_service))
   \<and> normalized_name_to_ror_id (load_data ascii_db (Table broken_table) new_service)
      (py ''somewhere college'') = Some [py ''04'']
   \<and> py ''04'' \<in> dom (ror_id_to_record (load_data ascii_db (Table broken_table) new_service))
   \<and> normalized_name_to_ror_id (load_data ascii_db (Table broken_table) new_service)
      (py ''nowhere college'') = None
   \<and> py ''03'' \<in> dom (ror_id_to_record (load_data ascii_db (Table broken_table) new_service))
   \<and> lookup_institution ascii_db (load_data ascii_db FileMissing new_service)
        (py ''Sample University'') [] \<noteq> ([], True)"
proof -
  have a: "normalized_name_to_ror_id (load_data ascii_db FileMissing new_service)
      (py ''sample university'') = Some [py ''sample123'']"
    by (simp add: service_defs normalize_defs char_class_defs Let_def)
  have b: "normalized_name_to_ror_id (load_data ascii_db ReadFailure new_service)
      (py ''fallback univ'') = Some [py ''fallback123'']"
    by (simp add: service_defs normalize_defs char_class_defs Let_def)
  have c: "normalized_name_to_ror_id (load_data ascii_db (Table broken_table) new_service)
      (py ''somewhere college'') = Some [py ''04'']"
    by (simp add: broken_table_def service_defs normalize_defs char_class_defs Let_def)
  have d: "normalized_name_to_ror_id (load_data ascii_db (Table broken_table) new_service)
      (py ''nowhere college'') = None"
    by (simp add: broken_table_def service_defs normalize_defs char_class_defs Let_def)
  have e: "py ''03'' \<in> dom (ror_id_to_record (load_data ascii_db (Table broken_table) new_service))"
    by (simp add: broken_table_def service_defs normalize_defs char_class_defs Let_def)
  note t = load_data_index_closed
    [where U = ascii_db and csv' = FileMissing and token = "py ''Sample University''"
       and geonames = "[]"]
  from t [where csv = FileMissing] a
  have a': "set [py ''sample123'']
      \<subseteq> dom (ror_id_to_record (load_data ascii_db FileMissing new_service))"
    unfolding index_closed_def by blast
  from t [where csv = ReadFailure] b
  have b': "set [py ''fallback123'']
      \<subseteq> dom (ror_id_to_record (load_data ascii_db ReadFailure new_service))"
    unfolding index_closed_def by blast
  from t [where csv = "Table broken_table"] c
  have c': "set [py ''04'']
      \<subseteq> dom (ror_id_to_record (load_data ascii_db (Table broken_table) new_service))"
    unfolding index_closed_def by blast
  from t [where csv = FileMissing] a b c d e a' b' c' show ?thesis by simp
qed

section \<open>Lookup of an ambiguous name\<close>

text \<open>
  C3, as the specification states it, fails for a name whose normalized form is shorter
  than 3: \<^verbatim>\<open>A&M\<close> has length 3 and is indexed under \<^verbatim>\<open>AM\<close> for both universities, yet the
  lookup of \<^verbatim>\<open>A&M\<close> stops at the length test and returns no institution.
\<close>

theorem lookup_ambiguous_counterexample:
  "normalized_name_to_ror_id (load_data ascii_db (Table am_table) new_service)
      (normalize ascii_db (Some (py ''A&M''))) = Some [py ''01'', py ''02'']
   \<and> map inst_name (List.map_filter
          (ror_id_to_record (load_data ascii_db (Table am_table) new_service))
          [py ''01'', py ''02''])
       = [py ''Texas A&M University'', py ''Florida A&M University'']
   \<and> lookup_institution ascii_db (load_data ascii_db (Table am_table) new_service)
        (py ''A&M'') [] = ([], False)"
  by (simp add: am_table_def service_defs normalize_defs char_class_defs Let_def)

text \<open>The test \<^verbatim>\<open>sub in s\<close> of the model is the substring relation.\<close>

lemma contains_iff: "contains s sub \<longleftrightarrow> (\<exists>ps ss. s = ps @ sub @ ss)"
proof (induction s)
  case Nil
  then show ?case by auto
next
  case (Cons c cs)
  show ?case
  proof
    assume "contains (c # cs) sub"
    then consider "take (length sub) (c # cs) = sub" | "contains cs sub" by auto
    then show "\<exists>ps ss. c # cs = ps @ sub @ ss"
    proof cases
      case 1
      then have "c # cs = [] @ sub @ drop (length sub) (c # cs)"
        by (metis append_Nil append_take_drop_id)
      then show ?thesis by blast
    next
      case 2
      with Cons obtain ps ss where "cs = ps @ sub @ ss" by blast
      then have "c # cs = (c # ps) @ sub @ ss" by simp
      then show ?thesis by blast
    qed
  next
    assume "\<exists>ps ss. c # cs = ps @ sub @ ss"
    then obtain ps ss where e: "c # cs = ps @ sub @ ss" by blast
    show "contains (c # cs) sub"
    proof (cases ps)
      case Nil
      with e have "take (length sub) (c # cs) = sub" by simp
      then show ?thesis by simp
    next
      case (Cons p ps')
      with e have "cs = ps' @ sub @ ss" by simp
      with Cons.IH show ?thesis by auto
    qed
  qed
qed

text \<open>
  When the record at one position of the candidate list passes a test and no record at
  another position does, filtering the records leaves that one record.
\<close>

lemma filter_one_hit:
  assumes i: "i < length ids" and rec: "f (ids ! i) = Some inst" and hit: "P inst"
    and others: "\<forall>j<length ids. j \<noteq> i \<longrightarrow> (\<forall>r. f (ids ! j) = Some r \<longrightarrow> \<not> P r)"
  shows "filter P (List.map_filter f ids) = [inst]"
proof -
  have split: "ids = take i ids @ ids ! i # drop (Suc i) ids"
    using i by (rule id_take_nth_drop)
  have none: "filter P (List.map_filter f xs) = []"
    if "\<forall>x\<in>set xs. \<forall>r. f x = Some r \<longrightarrow> \<not> P r" for xs
    using that by (induction xs) (auto simp: List.map_filter_def)
  have before: "\<forall>x\<in>set (take i ids). \<forall>r. f x = Some r \<longrightarrow> \<not> P r"
  proof
    fix x assume "x \<in> set (take i ids)"
    then obtain j where j: "j < i" and x: "x = ids ! j"
      using i by (auto simp: in_set_conv_nth)
    from j i have "j < length ids" and "j \<noteq> i" by auto
    with others x show "\<forall>r. f x = Some r \<longrightarrow> \<not> P r" by blast
  qed
  have after: "\<forall>x\<in>set (drop (Suc i) ids). \<forall>r. f x = Some r \<longrightarrow> \<not> P r"
  proof
    fix x assume "x \<in> set (drop (Suc i) ids)"
    then obtain k where k: "k < length ids - Suc i" and x: "x = ids ! (Suc i + k)"
      by (auto simp: in_set_conv_nth)
    from k have "Suc i + k < length ids" and "Suc i + k \<noteq> i" by auto
    with others x show "\<forall>r. f x = Some r \<longrightarrow> \<not> P r" by blast
  qed
  have "List.map_filter f ids =
      List.map_filter f (take i ids) @ inst # List.map_filter f (drop (Suc i) ids)"
    by (subst split) (simp add: List.map_filter_def rec)
  then show ?thesis
    using hit by (simp add: none [OF before] none [OF after])
qed

text \<open>
  C3, amended.  For every token whose normalized form has length at least 3 and is an
  index key bound to two or more ids: with no geonames, \<^verbatim>\<open>lookup_institution\<close> returns the
  institutions of the candidate ids in the order of the index entry (all of them when
  every id has a record) with \<open>False\<close>; with geonames, if the record of exactly one
  candidate has a display name that contains some geoname, both lowercased, it returns
  that institution alone with \<open>True\<close>.
\<close>

theorem lookup_institution_ambiguous:
  assumes "3 \<le> length (normalize U (Some token))"
    and "normalized_name_to_ror_id s (normalize U (Some token)) = Some ids"
    and "2 \<le> length ids"
  shows "lookup_institution U s token [] = (List.map_filter (ror_id_to_record s) ids, False)
    \<and> (set ids \<subseteq> dom (ror_id_to_record s) \<longrightarrow>
          map Some (fst (lookup_institution U s token [])) = map (ror_id_to_record s) ids)
    \<and> (geonames \<noteq> [] \<and> i < length ids \<and> ror_id_to_record s (ids ! i) = Some inst
          \<and> geo_hit U geonames inst
          \<and> (\<forall>j<length ids. j \<noteq> i \<longrightarrow>
                (\<forall>r. ror_id_to_record s (ids ! j) = Some r \<longrightarrow> \<not> geo_hit U geonames r))
        \<longrightarrow> lookup_institution U s token geonames = ([inst], True))"
proof -
  have ne: "ids \<noteq> []" and many: "length ids \<noteq> 1"
    using assms(3) by auto
  have first: "lookup_institution U s token [] = (List.map_filter (ror_id_to_record s) ids, False)"
    using assms(1,2) ne many by (simp add: lookup_institution_def Let_def)
  have all: "map Some (List.map_filter (ror_id_to_record s) xs) = map (ror_id_to_record s) xs"
    if "set xs \<subseteq> dom (ror_id_to_record s)" for xs
    using that by (induction xs) (auto simp: List.map_filter_def)
  have geo: "lookup_institution U s token geonames = ([inst], True)"
    if "geonames \<noteq> []" and "i < length ids" and "ror_id_to_record s (ids ! i) = Some inst"
      and "geo_hit U geonames inst"
      and "\<forall>j<length ids. j \<noteq> i \<longrightarrow>
             (\<forall>r. ror_id_to_record s (ids ! j) = Some r \<longrightarrow> \<not> geo_hit U geonames r)"
  proof -
    have "disambiguate U s ids geonames = [inst]"
      unfolding disambiguate_def using that(2-5) by (rule filter_one_hit)
    then show ?thesis
      using assms(1,2) ne many that(1) by (simp add: lookup_institution_def Let_def)
  qed
  from first all geo show ?thesis by simp
qed

theorem lookup_institution_ambiguous_witness:
  "3 \<le> length (normalize ascii_db (Some (py ''Trinity College'')))
   \<and> normalized_name_to_ror_id (load_data ascii_db (Table trinity_table) new_service)
        (normalize ascii_db (Some (py ''Trinity College''))) = Some [py ''01'', py ''02'']
   \<and> map inst_id (fst (lookup_institution ascii_db
        (load_data ascii_db (Table trinity_table) new_service) (py ''Trinity College'') []))
       = [py ''I1'', py ''I2'']
   \<and> snd (lookup_institution ascii_db
        (load_data ascii_db (Table trinity_table) new_service) (py ''Trinity College'') []) = False
   \<and> map inst_id (fst (lookup_institution ascii_db
        (load_data ascii_db (Table trinity_table) new_service) (py ''Trinity College'')
        [py ''Paris'', py ''DUBLIN'']))
       = [py ''I1'']
   \<and> snd (lookup_institution ascii_db
        (load_data ascii_db (Table trinity_table) new_service) (py ''Trinity College'')
        [py ''Paris'', py ''DUBLIN'']) = True"
proof -
  let ?s = "load_data ascii_db (Table trinity_table) new_service"
  let ?dublin = "\<lparr>inst_id = py ''I1'', inst_name = py ''Trinity College Dublin'',
      inst_ror = py ''https://ror.org/01'',
      inst_alternate_names = [py ''Trinity College'', py ''TCD'']\<rparr>"
  let ?hartford = "\<lparr>inst_id = py ''I2'', inst_name = py ''Trinity College Hartford'',
      inst_ror = py ''https://ror.org/02'',
      inst_alternate_names = [py ''Trinity College'']\<rparr>"
  have n: "3 \<le> length (normalize ascii_db (Some (py ''Trinity College'')))"
    by (simp add: normalize_defs char_class_defs)
  have k: "normalized_name_to_ror_id ?s (normalize ascii_db (Some (py ''Trinity College'')))
      = Some [py ''01'', py ''02'']"
    by (simp add: trinity_table_def service_defs normalize_defs char_class_defs Let_def)
  have l: "2 \<le> length [py ''01'', py ''02'']" by simp
  have r1: "ror_id_to_record ?s (py ''01'') = Some ?dublin"
    by (simp add: trinity_table_def service_defs normalize_defs char_class_defs Let_def)
  have r2: "ror_id_to_record ?s (py ''02'') = Some ?hartford"
    by (simp add: trinity_table_def service_defs normalize_defs char_class_defs Let_def)
  have h1: "geo_hit ascii_db [py ''Paris'', py ''DUBLIN''] ?dublin"
    by (simp add: geo_hit_def lower_def ascii_lower_def py_def char_class_defs)
  have h2: "\<not> geo_hit ascii_db [py ''Paris'', py ''DUBLIN''] ?hartford"
    by (simp add: geo_hit_def lower_def ascii_lower_def py_def char_class_defs)
  have o: "\<forall>j<length [py ''01'', py ''02'']. j \<noteq> 0 \<longrightarrow>
      (\<forall>r. ror_id_to_record ?s ([py ''01'', py ''02''] ! j) = Some r
          \<longrightarrow> \<not> geo_hit ascii_db [py ''Paris'', py ''DUBLIN''] r)"
    using r2 h2 by (auto simp: less_Suc_eq)
  note t = lookup_institution_ambiguous [OF n k l,
      of "[py ''Paris'', py ''DUBLIN'']" 0 ?dublin]
  from t have e: "lookup_institution ascii_db ?s (py ''Trinity College'') []
      = ([?dublin, ?hartford], False)"
    by (simp add: List.map_filter_def r1 r2)
  from t r1 h1 o have g: "lookup_institution ascii_db ?s (py ''Trinity College'')
      [py ''Paris'', py ''DUBLIN''] = ([?dublin], True)"
    by simp
  from n k e g show ?thesis by simp
qed

section \<open>Failure of the geographic extractor\<close>

text \<open>
  C6.  When the extractor raises on the query, \<^verbatim>\<open>find_geonames\<close> returns the empty list and
  \<^verbatim>\<open>process_query\<close> returns its result as usual: the geonames of the result are empty, and
  its matches are those of the tokens looked up with an empty list of geonames, exactly as
  with an extractor that finds nothing.
\<close>

theorem geo_failure_not_propagated:
  assumes "geo query = Inl e"
  shows "find_geonames geo query = []
    \<and> process_query U geo csv s query =
        (let s' = (if data_loaded s then s else load_data U csv s)
         in (\<lparr>qr_query = query, qr_geonames = [],
              qr_matches = concat (map (token_matches U s' []) (tokenize U query))\<rparr>, s'))
    \<and> process_query U geo csv s query = process_query U no_geonames csv s query"
  using assms by (simp add: process_query_def find_geonames_def no_geonames_def Let_def)

theorem geo_failure_not_propagated_witness:
  "failing_geo (py ''Sample University, Springfield'') = Inl (Exception (py ''extractor failure''))
   \<and> find_geonames failing_geo (py ''Sample University, Springfield'') = []
   \<and> qr_geonames (fst (process_query ascii_db failing_geo FileMissing new_service
        (py ''Sample University, Springfield''))) = []
   \<and> map match_token (qr_matches (fst (process_query ascii_db failing_geo FileMissing new_service
        (py ''Sample University, Springfield'')))) = [py ''Sample University'']"
proof -
  have f: "failing_geo (py ''Sample University, Springfield'')
      = Inl (Exception (py ''extractor failure''))"
    by (simp add: failing_geo_def)
  have t: "tokenize ascii_db (py ''Sample University, Springfield'')
      = [py ''Sample University'', py ''Springfield'']"
    by (simp add: tokenize_defs char_class_defs)
  have m: "map match_token (concat (map (token_matches ascii_db
        (load_data ascii_db FileMissing new_service) [])
        [py ''Sample University'', py ''Springfield''])) = [py ''Sample University'']"
    by (simp add: service_defs normalize_defs char_class_defs Let_def)
  from geo_failure_not_propagated
    [where geo = failing_geo and query = "py ''Sample University, Springfield''"
       and U = ascii_db and csv = FileMissing and s = new_service, OF f]
  show ?thesis
    using f m unfolding t by (simp add: Let_def new_service_def)
qed

section \<open>Evaluation of a batch of tests\<close>

text \<open>The accumulating loop of \<^verbatim>\<open>calculate_metrics\<close> computes the three sums.\<close>

lemma fold_count_test:
  "fold count_test ts (a, b, c) =
     (a + sum_list (map (\<lambda>t. length (correct (results t))) ts),
      b + sum_list (map (\<lambda>t. length (overmatched (results t))) ts),
      c + sum_list (map (\<lambda>t. length (undermatched (results t))) ts))"
  by (induction ts arbitrary: a b c) (simp_all add: count_test_def)

text \<open>
  C5.  \<^verbatim>\<open>calculate_metrics\<close> returns precision \<open>TP / (TP + FP)\<close> and recall
  \<open>TP / (TP + FN)\<close>, where \<open>TP\<close>, \<open>FP\<close> and \<open>FN\<close> are the summed lengths of the correct,
  overmatched and undermatched sequences of all outcomes, and each metric is 0 when its
  denominator is 0.
\<close>

theorem calculate_metrics_formula:
  "calculate_metrics outcomes =
     (let TP = sum_list (map (\<lambda>t. length (correct (results t))) outcomes);
          FP = sum_list (map (\<lambda>t. length (overmatched (results t))) outcomes);
          FN = sum_list (map (\<lambda>t. length (undermatched (results t))) outcomes)
      in (if TP + FP = 0 then 0 else real TP / real (TP + FP),
          if TP + FN = 0 then 0 else real TP / real (TP + FN)))"
  unfolding calculate_metrics_def fold_count_test Let_def by simp

subsection \<open>The service state across the queries of a batch\<close>

text \<open>
  The first query of a batch loads the data if need be; every later query finds the
  service in that loaded state and answers as it would have from the initial state.
\<close>

lemma process_query_after:
  "fst (process_query U geo csv (snd (process_query U geo csv s q')) q)
     = fst (process_query U geo csv s q)"
  by (simp add: process_query_def Let_def load_data_loaded)

lemma run_loop_outcomes:
  "fst (run_loop U geo csv specs s) =
     map (\<lambda>spec. evaluate_test spec
            (fst (process_query U geo csv s (get_or (spec_query spec) [])))) specs"
proof (induction specs arbitrary: s)
  case Nil
  then show ?case by simp
next
  case (Cons spec specs)
  obtain r s' where p: "process_query U geo csv s (get_or (spec_query spec) []) = (r, s')"
    by (cases "process_query U geo csv s (get_or (spec_query spec) [])")
  have s': "s' = snd (process_query U geo csv s (get_or (spec_query spec) []))"
    using p by simp
  have "fst (run_loop U geo csv specs s') =
     map (\<lambda>spec. evaluate_test spec
            (fst (process_query U geo csv s (get_or (spec_query spec) [])))) specs"
    unfolding Cons.IH s' process_query_after ..
  then show ?case using p by (auto split: prod.splits)
qed

lemma sample_query:
  "fst (process_query ascii_db no_geonames FileMissing new_service (py ''Sample University''))
   = \<lparr>qr_query = py ''Sample University'', qr_geonames = [],
      qr_matches = [\<lparr>match_token = py ''Sample University'',
         match_institution = \<lparr>inst_id = py ''https://openalex.org/I123456789'', inst_name = py ''Sample University'',
             inst_ror = py ''https://ror.org/sample123'',
             inst_alternate_names = [py ''SU'', py ''Sample Univ'']\<rparr>,
         is_token_unique = True\<rparr>]\<rparr>"
  by (simp add: service_defs no_geonames_def tokenize_defs normalize_defs char_class_defs Let_def)

text \<open>
  C4.  For every test case run by \<^verbatim>\<open>run_tests\<close>, paired with its outcome: \<open>is_passing\<close> holds
  if and only if every expected id occurs among the found ids and the two sequences have
  the same length, where the expected ids are the non-empty ids of the expected entities
  and the found ids are the institution ids of all matches that \<^verbatim>\<open>process_query\<close> produces
  for the query of the test case, duplicates included.
\<close>

theorem run_tests_is_passing:
  "list_all2
     (\<lambda>spec outcome.
        is_passing outcome =
          (let expected_ids = expected_ids_of (get_or (spec_expected_entities spec) []);
               found_ids = found_ids_of
                 (fst (process_query U geo csv s (get_or (spec_query spec) [])))
           in (\<forall>i \<in> set expected_ids. i \<in> set found_ids)
              \<and> length found_ids = length expected_ids))
     (tests_to_run ts test_specs)
     (fst (run_tests U geo csv ts s test_specs))"
  unfolding run_tests_def run_loop_outcomes
  by (simp add: list_all2_map2 evaluate_test_def Let_def list_all_iff list_all2_same)

theorem run_tests_is_passing_witness:
  "is_passing (hd (fst (run_tests ascii_db no_geonames FileMissing \<lparr>tests = []\<rparr> new_service
      (Some [sample_spec]))))
   \<and> found_ids_of (fst (process_query ascii_db no_geonames FileMissing new_service
        (py ''Sample University''))) = [py ''https://openalex.org/I123456789'']
   \<and> expected_ids_of (get_or (spec_expected_entities sample_spec) [])
       = [py ''https://openalex.org/I123456789'']"
proof -
  have f: "found_ids_of (fst (process_query ascii_db no_geonames FileMissing new_service
        (py ''Sample University''))) = [py ''https://openalex.org/I123456789'']"
    by (simp add: sample_query found_ids_of_def)
  have e: "expected_ids_of (get_or (spec_expected_entities sample_spec) [])
       = [py ''https://openalex.org/I123456789'']"
    by (simp add: sample_spec_def evaluator_defs py_def)
  have q: "get_or (spec_query sample_spec) [] = py ''Sample University''"
    by (simp add: sample_spec_def get_or_def)
  have t: "tests_to_run \<lparr>tests = []\<rparr> (Some [sample_spec]) = [sample_spec]"
    by (simp add: tests_to_run_def sample_spec_def)
  from run_tests_is_passing [of ascii_db no_geonames FileMissing new_service "\<lparr>tests = []\<rparr>" "Some [sample_spec]"]
  have "is_passing (hd (fst (run_tests ascii_db no_geonames FileMissing \<lparr>tests = []\<rparr> new_service
      (Some [sample_spec]))))"
    unfolding t by (auto simp: list_all2_Cons1 q f e Let_def)
  with f e show ?thesis by blast
qed

text \<open>
  C10.  Called with \<^verbatim>\<open>None\<close> or with the empty list, \<^verbatim>\<open>run_tests\<close> runs the specifications
  stored in \<^verbatim>\<open>self.tests\<close> and returns one outcome for each of them, in order; called with
  a non-empty list it returns one outcome for each element of that list, whatever is
  stored.
\<close>

theorem run_tests_fallback:
  "((test_specs = None \<or> test_specs = Some []) \<longrightarrow>
      fst (run_tests U geo csv ts s test_specs) =
        map (\<lambda>spec. evaluate_test spec
               (fst (process_query U geo csv s (get_or (spec_query spec) [])))) (tests ts)
      \<and> length (fst (run_tests U geo csv ts s test_specs)) = length (tests ts))
   \<and> ((test_specs = Some specs \<and> specs \<noteq> []) \<longrightarrow>
      fst (run_tests U geo csv ts s test_specs) =
        map (\<lambda>spec. evaluate_test spec
               (fst (process_query U geo csv s (get_or (spec_query spec) [])))) specs
      \<and> length (fst (run_tests U geo csv ts s test_specs)) = length specs)"
  unfolding run_tests_def run_loop_outcomes by (auto simp: tests_to_run_def)

lemma test_id_evaluate_test: "test_id (evaluate_test spec r) = get_or (spec_id spec) []"
  by (simp add: evaluate_test_def Let_def)

theorem run_tests_fallback_witness:
  "map test_id (fst (run_tests ascii_db no_geonames FileMissing \<lparr>tests = [sample_spec]\<rparr>
       new_service None)) = [py ''t1'']
   \<and> map test_id (fst (run_tests ascii_db no_geonames FileMissing \<lparr>tests = [sample_spec]\<rparr>
       new_service (Some []))) = [py ''t1'']
   \<and> map test_id (fst (run_tests ascii_db no_geonames FileMissing \<lparr>tests = [sample_spec]\<rparr>
       new_service (Some [other_spec]))) = [py ''t2'']"
  using
    run_tests_fallback [of None ascii_db no_geonames FileMissing "\<lparr>tests = [sample_spec]\<rparr>"
        new_service "[]"]
    run_tests_fallback [of "Some []" ascii_db no_geonames FileMissing "\<lparr>tests = [sample_spec]\<rparr>"
        new_service "[]"]
    run_tests_fallback [of "Some [other_spec]" ascii_db no_geonames FileMissing
        "\<lparr>tests = [sample_spec]\<rparr>" new_service "[other_spec]"]
  by (simp add: test_id_evaluate_test get_or_def sample_spec_def other_spec_def)

end
